theory Spec2Isabelle
  imports Main "HOL-Library.Sublist"
begin

section \<open>The rule server of xstream/server/server/server.go\<close>

text \<open>
  The server keeps three pieces of package-level state: the rule registry
  (\<open>map[string]*RuleState\<close>), the topologies the rule states point to, and the query
  result buffer \<open>sinks.QR\<close>. Every RPC method, \<open>stopQuery\<close> and one iteration of the
  ticker loop of \<open>init\<close> is embedded as a function from the state before the call to
  the returned error, the reply and the state after the call. One call runs from its
  start to its end without another call in between.
\<close>

subsection \<open>Go values\<close>

text \<open>
  An \<open>error\<close> value. The two sentinels of package \<open>context\<close> are compared by identity
  in \<open>GetStatusRule\<close>; every other error is known by its text. \<open>nil\<close> is \<open>None\<close> of
  \<open>go_error option\<close>.
\<close>

datatype go_error = Canceled | DeadlineExceeded | Err string

fun Error :: "go_error \<Rightarrow> string" where
  "Error Canceled = ''context canceled''"
| "Error DeadlineExceeded = ''context deadline exceeded''"
| "Error (Err msg) = msg"

text \<open>
  \<open>time.Time\<close> as a count of nanoseconds and \<open>time.Duration\<close> as the 64-bit count
  of nanoseconds it is; \<open>Time.Sub\<close> returns the difference, or the largest or smallest
  duration when the difference does not fit.
\<close>

type_synonym Time = int
type_synonym Duration = int

definition Second :: Duration where
  "Second = 1000000000"

definition maxDuration :: Duration where
  "maxDuration = 2 ^ 63 - 1"

definition minDuration :: Duration where
  "minDuration = - (2 ^ 63)"

definition Sub :: "Time \<Rightarrow> Time \<Rightarrow> Duration" where
  "Sub t u =
     (if t - u > maxDuration then maxDuration
      else if t - u < minDuration then minDuration
      else t - u)"

subsection \<open>Topologies, rule states, the registry\<close>

type_synonym addr = nat

text \<open>
  A metric as \<open>GetStatusRule\<close> tells them apart in its type switch: a \<open>string\<close>,
  printed with \<open>%q\<close>, or a value of any other type, which carries the text that
  \<open>%v\<close> prints for it.
\<close>

datatype metric_value = StringValue string | OtherValue string

text \<open>
  Modelled from the spec: the type \<open>xstream.TopologyNew\<close> is not among the sources.
  The server reads two things of a topology: \<open>GetContext()\<close>, whose result is \<open>nil\<close>
  (here \<open>None\<close>) or a context whose \<open>Err()\<close> is \<open>nil\<close> or an error, and
  \<open>GetMetrics()\<close>, an ordered sequence of (name, value) pairs. Both belong to the
  engine; the server never writes them. The calls \<open>Cancel()\<close> and \<open>Open()\<close> that the
  server makes on a topology are recorded in the trace below.
\<close>

record topology =
  ctx :: "go_error option option"
  metrics :: "(string \<times> metric_value) list"

text \<open>
  \<open>type RuleState struct\<close>. The field \<open>Topology\<close> is a pointer: the address of the
  topology in the store.
\<close>

record RuleState =
  Name :: string
  Topology :: addr
  Triggered :: bool

text \<open>\<open>sinks.QR\<close>: the fragments and the time of the last fetch.\<close>

record QueryResult =
  Results :: "string list"
  LastFetch :: Time

text \<open>
  The calls the server makes on its collaborators, in the order it makes them. A call
  that creates a topology records the address of the new topology.
\<close>

datatype event =
    EvCancel addr
  | EvOpen addr
  | EvExecQuery string string "addr option"
  | EvExecInitRule string "addr option"
  | EvExecCreate string string
  | EvGetRuleByName string
  | EvExecDrop string
  | EvExecStmt string
  | EvExecDesc string
  | EvExecShow

text \<open>
  The package-level state. Each \<open>*RuleState\<close> in the registry is created by
  \<open>createRuleState\<close> or \<open>CreateQuery\<close> and stored under one key only, so a write
  through the pointer is a write to the entry of that key: the registry maps a name to
  the rule state itself, and a local \<open>rs\<close> is the key that holds it. The registry is
  the one \<open>StartUp\<close> makes; before that no RPC is served.
\<close>

record state =
  registry :: "string \<rightharpoonup> RuleState"
  topologies :: "addr \<Rightarrow> topology"
  next_tp :: addr
  QR :: QueryResult
  trace :: "event list"

definition QUERY_RULE_ID :: string where
  "QUERY_RULE_ID = ''internal-xstream_query_rule''"

text \<open>
  Only the field \<open>Id\<close> of \<open>api.Rule\<close> is read by the server; \<open>common.Rule\<close> has
  the two fields \<open>CreateRule\<close> reads.
\<close>

record api_Rule =
  Id :: string

record common_Rule =
  rule_Name :: string
  rule_Json :: string

text \<open>What a call returns: the error, the reply and the state after the call.\<close>

type_synonym ret = "go_error option \<times> string \<times> state"

definition err_of :: "ret \<Rightarrow> go_error option" where
  "err_of r = fst r"

definition reply_of :: "ret \<Rightarrow> string" where
  "reply_of r = fst (snd r)"

definition state_of :: "ret \<Rightarrow> state" where
  "state_of r = snd (snd r)"

text \<open>
  Modelled from the spec: \<open>ExecQuery\<close> and \<open>ExecInitRule\<close> of the rule processor are
  not among the sources. Each either fails or returns a pointer to a topology it has
  just created; \<open>new_topology\<close> places that topology at the next free address.
\<close>

definition new_topology :: "topology \<Rightarrow> state \<Rightarrow> addr \<times> state" where
  "new_topology tp s =
     (next_tp s, s\<lparr>topologies := (topologies s)(next_tp s := tp), next_tp := Suc (next_tp s)\<rparr>)"

definition record_event :: "event \<Rightarrow> state \<Rightarrow> state" where
  "record_event e s = s\<lparr>trace := trace s @ [e]\<rparr>"

subsection \<open>The ad-hoc query\<close>

definition stopQuery :: "state \<Rightarrow> state" where
  "stopQuery s =
     (case registry s QUERY_RULE_ID of
        Some rs \<Rightarrow>
          (record_event (EvCancel (Topology rs)) s)
            \<lparr>registry := (registry s)(QUERY_RULE_ID := None)\<rparr>
      | None \<Rightarrow> s)"

text \<open>
  \<open>CreateQuery\<close>. The first argument is what \<open>ExecQuery\<close> returns to this call: an
  error or the topology it created.
\<close>

definition CreateQuery :: "go_error + topology \<Rightarrow> string \<Rightarrow> string \<Rightarrow> state \<Rightarrow> ret" where
  "CreateQuery exec sql reply s =
     (let s1 = (if registry s QUERY_RULE_ID \<noteq> None then stopQuery s else s) in
      case exec of
        Inl err \<Rightarrow> (Some err, reply, record_event (EvExecQuery QUERY_RULE_ID sql None) s1)
      | Inr t \<Rightarrow>
          (let (tp, s2) = new_topology t s1;
               s3 = record_event (EvExecQuery QUERY_RULE_ID sql (Some tp)) s2;
               rs = \<lparr>Name = QUERY_RULE_ID, Topology = tp, Triggered = True\<rparr>
           in (None, ''Query was submit successfully.'',
               s3\<lparr>registry := (registry s3)(QUERY_RULE_ID \<mapsto> rs)\<rparr>)))"

text \<open>
  \<open>GetQueryResult\<close>; \<open>now\<close> is what \<open>time.Now()\<close> returns. \<open>make([]string, 10)\<close> is
  a slice of ten empty strings.
\<close>

definition query_died :: "state \<Rightarrow> go_error option" where
  "query_died s =
     (case registry s QUERY_RULE_ID of
        Some rs \<Rightarrow>
          (case ctx (topologies s (Topology rs)) of
             Some (Some err) \<Rightarrow> Some err
           | _ \<Rightarrow> None)
      | None \<Rightarrow> None)"

definition GetQueryResult :: "Time \<Rightarrow> string \<Rightarrow> string \<Rightarrow> state \<Rightarrow> ret" where
  "GetQueryResult now qid reply s =
     (case query_died s of
        Some err \<Rightarrow> (Some err, reply, s)
      | None \<Rightarrow>
          (let qr = (QR s)\<lparr>LastFetch := now\<rparr> in
           if length (Results qr) > 0
           then (None, concat (Results qr), s\<lparr>QR := qr\<lparr>Results := replicate 10 []\<rparr>\<rparr>)
           else (None, [], s\<lparr>QR := qr\<rparr>)))"

subsection \<open>Rules\<close>

text \<open>
  \<open>createRuleState\<close>; the first argument is what \<open>ExecInitRule\<close> returns. The result
  is the error, or the key of the new rule state.
\<close>

definition createRuleState :: "go_error + topology \<Rightarrow> api_Rule \<Rightarrow> state \<Rightarrow> (go_error + string) \<times> state" where
  "createRuleState init rule s =
     (case init of
        Inl err \<Rightarrow> (Inl err, record_event (EvExecInitRule (Id rule) None) s)
      | Inr t \<Rightarrow>
          (let (tp, s1) = new_topology t s;
               s2 = record_event (EvExecInitRule (Id rule) (Some tp)) s1;
               rs = \<lparr>Name = Id rule, Topology = tp, Triggered = True\<rparr>
           in (Inr (Id rule), s2\<lparr>registry := (registry s2)(Id rule \<mapsto> rs)\<rparr>)))"

text \<open>
  \<open>doStartRule\<close> sets the flag and starts the goroutine that opens the topology of
  the rule state. What the goroutine does when the topology ends (it sets the error on
  the context and cancels) happens later, on the topology only.
\<close>

definition doStartRule :: "string \<Rightarrow> state \<Rightarrow> go_error option \<times> state" where
  "doStartRule key s =
     (case registry s key of
        Some rs \<Rightarrow>
          (None, (record_event (EvOpen (Topology rs)) s)
                   \<lparr>registry := (registry s)(key \<mapsto> rs\<lparr>Triggered := True\<rparr>)\<rparr>)
      | None \<Rightarrow> (None, s))"

definition StopRule :: "string \<Rightarrow> string \<Rightarrow> state \<Rightarrow> ret" where
  "StopRule name reply s =
     (case registry s name of
        Some rs \<Rightarrow>
          (None, ''Rule '' @ name @ '' was stopped.'',
           (record_event (EvCancel (Topology rs)) s)
             \<lparr>registry := (registry s)(name \<mapsto> rs\<lparr>Triggered := False\<rparr>)\<rparr>)
      | None \<Rightarrow> (None, ''Rule '' @ name @ '' was not found.'', s))"

text \<open>
  \<open>StartRule\<close>; the first two arguments are what \<open>GetRuleByName\<close> and
  \<open>ExecInitRule\<close> return when the call reaches them.
\<close>

definition StartRule :: "go_error + api_Rule \<Rightarrow> go_error + topology \<Rightarrow> string \<Rightarrow> string \<Rightarrow> state \<Rightarrow> ret" where
  "StartRule get init name reply s =
     (let started = (\<lambda>key s'.
            case doStartRule key s' of
              (Some err, s'') \<Rightarrow> (Some err, reply, s'')
            | (None, s'') \<Rightarrow> (None, ''Rule '' @ name @ '' was started'', s''))
      in case registry s name of
           Some rs \<Rightarrow> started name s
         | None \<Rightarrow>
             (case get of
                Inl err \<Rightarrow> (Some err, reply, record_event (EvGetRuleByName name) s)
              | Inr r \<Rightarrow>
                  (case createRuleState init r (record_event (EvGetRuleByName name) s) of
                     (Inl err, s1) \<Rightarrow> (Some err, reply, s1)
                   | (Inr key, s1) \<Rightarrow> started key s1)))"

definition RestartRule :: "go_error + api_Rule \<Rightarrow> go_error + topology \<Rightarrow> string \<Rightarrow> string \<Rightarrow> state \<Rightarrow> ret" where
  "RestartRule get init name reply s =
     (case StopRule name reply s of
        (Some err, reply1, s1) \<Rightarrow> (Some err, reply1, s1)
      | (None, reply1, s1) \<Rightarrow>
          (case StartRule get init name reply1 s1 of
             (Some err, reply2, s2) \<Rightarrow> (Some err, reply2, s2)
           | (None, reply2, s2) \<Rightarrow> (None, ''Rule '' @ name @ '' was restarted.'', s2)))"

text \<open>\<open>DropRule\<close>; the first argument is what \<open>ExecDrop\<close> returns.\<close>

definition DropRule :: "go_error + string \<Rightarrow> string \<Rightarrow> string \<Rightarrow> state \<Rightarrow> ret" where
  "DropRule dropped name reply s =
     (let s0 = record_event (EvExecDrop name) s in
      case dropped of
        Inl err \<Rightarrow> (Some (Err (''Drop rule error : '' @ Error err @ ''.'')), reply, s0)
      | Inr r \<Rightarrow>
          (case StopRule name reply s0 of
             (Some err, reply1, s1) \<Rightarrow> (Some err, reply1, s1)
           | (None, reply1, s1) \<Rightarrow> (None, r, s1)))"

text \<open>
  \<open>CreateRule\<close>; the first two arguments are what \<open>ExecCreate\<close> and
  \<open>ExecInitRule\<close> return. The reply is written before the rule is started, and stays
  when the start fails.
\<close>

definition CreateRule :: "go_error + api_Rule \<Rightarrow> go_error + topology \<Rightarrow> common_Rule \<Rightarrow> string \<Rightarrow> state \<Rightarrow> ret" where
  "CreateRule created init rule reply s =
     (let s0 = record_event (EvExecCreate (rule_Name rule) (rule_Json rule)) s in
      case created of
        Inl err \<Rightarrow> (Some (Err (''Create rule error : '' @ Error err @ ''.'')), reply, s0)
      | Inr r \<Rightarrow>
          (let reply1 = ''Rule '' @ rule_Name rule @
                 '' was created, please use '' @ [CHR 0x27] @ ''cli getstatus rule $rule_name'' @
                 [CHR 0x27] @ '' command to get rule status.''
           in case createRuleState init r s0 of
                (Inl err, s1) \<Rightarrow> (Some err, reply1, s1)
              | (Inr key, s1) \<Rightarrow>
                  (case doStartRule key s1 of
                     (Some err, s2) \<Rightarrow> (Some err, reply1, s2)
                   | (None, s2) \<Rightarrow> (None, reply1, s2))))"

subsection \<open>Status\<close>

text \<open>
  Two functions of Go's library that \<open>GetStatusRule\<close> calls are parameters:
  \<open>Sprintf_q\<close> is what \<open>%q\<close> prints for a string, and \<open>json_Indent\<close> is
  \<open>json.Indent\<close> with no prefix and an indent of two spaces, \<open>None\<close> when it returns
  an error.
\<close>

record library =
  Sprintf_q :: "string \<Rightarrow> string"
  json_Indent :: "string \<Rightarrow> string option"

fun metric_entry :: "library \<Rightarrow> string \<times> metric_value \<Rightarrow> string" where
  "metric_entry lib (key, StringValue v) =
     [CHR 0x22] @ key @ [CHR 0x22] @ '':'' @ Sprintf_q lib v @ '',''"
| "metric_entry lib (key, OtherValue v) =
     [CHR 0x22] @ key @ [CHR 0x22] @ '':'' @ v @ '',''"

text \<open>
  The loop over the keys appends one entry per metric to \<open>"{"\<close>; then the last
  byte is cut off and \<open>"}"\<close> is appended.
\<close>

definition metrics_text :: "library \<Rightarrow> (string \<times> metric_value) list \<Rightarrow> string" where
  "metrics_text lib ms = butlast (foldl (\<lambda>acc m. acc @ metric_entry lib m) ''{'' ms) @ ''}''"

definition running_reply :: "library \<Rightarrow> (string \<times> metric_value) list \<Rightarrow> string" where
  "running_reply lib ms =
     (case json_Indent lib (metrics_text lib ms) of
        None \<Rightarrow> ''Running with metrics:'' @ [CHR 0x0A] @ metrics_text lib ms
      | Some dst \<Rightarrow> ''Running with metrics:'' @ [CHR 0x0A] @ dst)"

definition GetStatusRule :: "library \<Rightarrow> string \<Rightarrow> string \<Rightarrow> state \<Rightarrow> ret" where
  "GetStatusRule lib name reply s =
     (case registry s name of
        Some rs \<Rightarrow>
          if \<not> Triggered rs then (None, ''Stopped: canceled manually.'', s)
          else
            (case ctx (topologies s (Topology rs)) of
               Some c \<Rightarrow>
                 (case c of
                    None \<Rightarrow> (None, running_reply lib (metrics (topologies s (Topology rs))), s)
                  | Some Canceled \<Rightarrow> (None, ''Stopped: canceled by error.'', s)
                  | Some DeadlineExceeded \<Rightarrow> (None, ''Stopped: deadline exceed.'', s)
                  | Some err \<Rightarrow> (None, ''Stopped: '' @ Error err @ ''.'', s))
             | None \<Rightarrow> (None, ''Stopped: no context found.'', s))
      | None \<Rightarrow> (Some (Err (''Rule '' @ name @ '' is not found'')), reply, s))"

text \<open>A reply is a metrics block when it starts with the line of the running branch.\<close>

definition is_metrics_block :: "string \<Rightarrow> bool" where
  "is_metrics_block reply = prefix (''Running with metrics:'' @ [CHR 0x0A]) reply"

subsection \<open>Stream statements, descriptions, listings\<close>

definition Stream :: "go_error + string list \<Rightarrow> string \<Rightarrow> string \<Rightarrow> state \<Rightarrow> ret" where
  "Stream executed stream reply s =
     (let s0 = record_event (EvExecStmt stream) s in
      case executed of
        Inl err \<Rightarrow> (Some (Err (''Stream command error: '' @ Error err)), reply, s0)
      | Inr content \<Rightarrow> (None, foldl (\<lambda>acc c. acc @ c @ [CHR 0x0A]) reply content, s0))"

definition DescRule :: "go_error + string \<Rightarrow> string \<Rightarrow> string \<Rightarrow> state \<Rightarrow> ret" where
  "DescRule described name reply s =
     (let s0 = record_event (EvExecDesc name) s in
      case described of
        Inl err \<Rightarrow> (Some (Err (''Desc rule error : '' @ Error err @ ''.'')), reply, s0)
      | Inr r \<Rightarrow> (None, r, s0))"

definition ShowRules :: "go_error + string \<Rightarrow> string \<Rightarrow> state \<Rightarrow> ret" where
  "ShowRules shown reply s =
     (let s0 = record_event EvExecShow s in
      case shown of
        Inl err \<Rightarrow> (Some (Err (''Show rule error : '' @ Error err @ ''.'')), reply, s0)
      | Inr r \<Rightarrow> (None, r, s0))"

subsection \<open>The ticker of init\<close>

text \<open>
  \<open>time.NewTicker(time.Second * 5)\<close>, and one iteration of the loop that waits for
  the ticker; \<open>now\<close> is what \<open>time.Now()\<close> returns in that iteration.
\<close>

definition ticker_interval :: Duration where
  "ticker_interval = Second * 5"

definition watchdog_tick :: "Time \<Rightarrow> state \<Rightarrow> state" where
  "watchdog_tick now s =
     (if registry s QUERY_RULE_ID = None then s
      else if Sub now (LastFetch (QR s)) \<ge> 10 * Second then stopQuery s
      else s)"

subsection \<open>Runs of the server\<close>

text \<open>
  What can happen to the state, one after the other: a call of an RPC method, with what
  the collaborators return to it; an iteration of the ticker loop; and the two things
  that happen outside the calls.

  Modelled from the spec: the engine and the sink are not among the sources.
  \<open>Background\<close> is the engine at work together with the goroutines of \<open>doStartRule\<close>
  that end: the contexts and metrics of the topologies change in any way, and the
  goroutines cancel the topologies listed. \<open>Collect\<close> is the sink of the query
  appending a fragment to the buffer.
\<close>

datatype op =
    CallCreateQuery "go_error + topology" string
  | CallGetQueryResult Time string
  | CallStream "go_error + string list" string
  | CallCreateRule "go_error + api_Rule" "go_error + topology" common_Rule
  | CallGetStatusRule string
  | CallStartRule "go_error + api_Rule" "go_error + topology" string
  | CallStopRule string
  | CallRestartRule "go_error + api_Rule" "go_error + topology" string
  | CallDescRule "go_error + string" string
  | CallShowRules "go_error + string"
  | CallDropRule "go_error + string" string
  | Tick Time
  | Background "(addr \<Rightarrow> topology) \<Rightarrow> addr \<Rightarrow> topology" "addr list"
  | Collect string

fun step :: "library \<Rightarrow> op \<Rightarrow> state \<Rightarrow> state" where
  "step lib (CallCreateQuery exec sql) s = state_of (CreateQuery exec sql [] s)"
| "step lib (CallGetQueryResult now qid) s = state_of (GetQueryResult now qid [] s)"
| "step lib (CallStream executed stream) s = state_of (Stream executed stream [] s)"
| "step lib (CallCreateRule created init rule) s = state_of (CreateRule created init rule [] s)"
| "step lib (CallGetStatusRule name) s = state_of (GetStatusRule lib name [] s)"
| "step lib (CallStartRule get init name) s = state_of (StartRule get init name [] s)"
| "step lib (CallStopRule name) s = state_of (StopRule name [] s)"
| "step lib (CallRestartRule get init name) s = state_of (RestartRule get init name [] s)"
| "step lib (CallDescRule described name) s = state_of (DescRule described name [] s)"
| "step lib (CallShowRules shown) s = state_of (ShowRules shown [] s)"
| "step lib (CallDropRule dropped name) s = state_of (DropRule dropped name [] s)"
| "step lib (Tick now) s = watchdog_tick now s"
| "step lib (Background f cancelled) s =
     s\<lparr>topologies := f (topologies s), trace := trace s @ map EvCancel cancelled\<rparr>"
| "step lib (Collect fragment) s = s\<lparr>QR := (QR s)\<lparr>Results := Results (QR s) @ [fragment]\<rparr>\<rparr>"

fun run :: "library \<Rightarrow> op list \<Rightarrow> state \<Rightarrow> state" where
  "run lib [] s = s"
| "run lib (x # xs) s = run lib xs (step lib x s)"

text \<open>
  A call starts the rule \<open>n\<close> when it is \<open>StartRule\<close> or \<open>RestartRule\<close> of \<open>n\<close>, or
  stores a new rule state under \<open>n\<close>; \<open>CreateQuery\<close> starts the reserved name. An
  iteration of the ticker loop can reclaim the entry of the reserved name.
\<close>

fun stored_as :: "string \<Rightarrow> go_error + api_Rule \<Rightarrow> bool" where
  "stored_as n (Inl err) = False"
| "stored_as n (Inr r) = (Id r = n)"

fun starts :: "string \<Rightarrow> op \<Rightarrow> bool" where
  "starts n (CallStartRule get init name) = (name = n \<or> stored_as n get)"
| "starts n (CallRestartRule get init name) = (name = n \<or> stored_as n get)"
| "starts n (CallCreateRule created init rule) = stored_as n created"
| "starts n (CallCreateQuery exec sql) = (n = QUERY_RULE_ID)"
| "starts n x = False"

fun reclaims :: "string \<Rightarrow> op \<Rightarrow> bool" where
  "reclaims n (Tick now) = (n = QUERY_RULE_ID)"
| "reclaims n x = False"

text \<open>The rule \<open>n\<close> is registered and its flag is cleared.\<close>

definition stopped :: "string \<Rightarrow> state \<Rightarrow> bool" where
  "stopped n s = (case registry s n of Some rs \<Rightarrow> \<not> Triggered rs | None \<Rightarrow> False)"


subsection \<open>Queries that are live\<close>

text \<open>
  The topologies an event names; a state is well-formed when every topology that the
  registry or the trace names has been created, that is, lies below the next free
  address.
\<close>

fun event_handles :: "event \<Rightarrow> addr list" where
  "event_handles (EvCancel a) = [a]"
| "event_handles (EvOpen a) = [a]"
| "event_handles (EvExecQuery name sql (Some a)) = [a]"
| "event_handles (EvExecInitRule name (Some a)) = [a]"
| "event_handles e = []"

definition handles_allocated :: "state \<Rightarrow> bool" where
  "handles_allocated s \<longleftrightarrow>
     (\<forall>rs \<in> ran (registry s). Topology rs < next_tp s) \<and>
     list_all (\<lambda>a. a < next_tp s) (concat (map event_handles (trace s)))"

text \<open>
  The topologies that \<open>ExecQuery\<close> has created, in order, and those of them that no
  \<open>Cancel()\<close> has reached: the active queries. No query strays when every active
  query is the one in the registry.
\<close>

fun created_queries :: "event list \<Rightarrow> addr list" where
  "created_queries [] = []"
| "created_queries (EvExecQuery name sql (Some a) # es) = a # created_queries es"
| "created_queries (e # es) = created_queries es"

definition active_queries :: "state \<Rightarrow> addr list" where
  "active_queries s = filter (\<lambda>a. EvCancel a \<notin> set (trace s)) (created_queries (trace s))"

definition no_stray_query :: "state \<Rightarrow> bool" where
  "no_stray_query s \<longleftrightarrow>
     set (active_queries s) \<subseteq>
       (case registry s QUERY_RULE_ID of Some rs \<Rightarrow> {Topology rs} | None \<Rightarrow> {})"

text \<open>The call \<open>stopQuery\<close> makes: none when no query is registered.\<close>

definition cancel_previous :: "state \<Rightarrow> event list" where
  "cancel_previous s =
     (case registry s QUERY_RULE_ID of Some rs \<Rightarrow> [EvCancel (Topology rs)] | None \<Rightarrow> [])"


subsection \<open>States to run the server on\<close>

text \<open>
  The state \<open>StartUp\<close> leaves when no rule is persisted; a topology whose context
  reports no error; the state after \<open>StartRule\<close> has created and started the rule
  \<open>r1\<close>; the state after \<open>CreateQuery\<close> has registered a query; and a buffer that
  holds two fragments.
\<close>

definition startup_state :: state where
  "startup_state =
     \<lparr>registry = Map.empty, topologies = (\<lambda>a. \<lparr>ctx = None, metrics = []\<rparr>), next_tp = 0,
      QR = \<lparr>Results = [], LastFetch = 0\<rparr>, trace = []\<rparr>"

definition live_topology :: topology where
  "live_topology = \<lparr>ctx = Some None, metrics = [(''records_in_total'', OtherValue ''3'')]\<rparr>"

definition rule_running :: state where
  "rule_running =
     state_of (StartRule (Inr \<lparr>Id = ''r1''\<rparr>) (Inr live_topology) ''r1'' [] startup_state)"

definition query_running :: state where
  "query_running =
     state_of (CreateQuery (Inr live_topology) ''select * from demo'' [] startup_state)"

definition two_fragments :: state where
  "two_fragments = startup_state\<lparr>QR := \<lparr>Results = [''a'', ''b''], LastFetch = 0\<rparr>\<rparr>"

text \<open>
  A library for the runs below: \<open>%q\<close> puts double quotes around a string that needs
  no escape, and \<open>json.Indent\<close> fails.
\<close>

definition plain_library :: library where
  "plain_library = \<lparr>Sprintf_q = (\<lambda>v. [CHR 0x22] @ v @ [CHR 0x22]), json_Indent = (\<lambda>m. None)\<rparr>"

section \<open>Properties\<close>

subsection \<open>The states above, evaluated\<close>

lemma rule_running_eq:
  "rule_running =
     \<lparr>registry = [''r1'' \<mapsto> \<lparr>Name = ''r1'', Topology = 0, Triggered = True\<rparr>],
      topologies = (\<lambda>a. \<lparr>ctx = None, metrics = []\<rparr>)(0 := live_topology), next_tp = Suc 0,
      QR = \<lparr>Results = [], LastFetch = 0\<rparr>,
      trace = [EvGetRuleByName ''r1'', EvExecInitRule ''r1'' (Some 0), EvOpen 0]\<rparr>"
  by (simp add: rule_running_def startup_state_def StartRule_def createRuleState_def
      doStartRule_def new_topology_def record_event_def state_of_def)

lemma query_running_eq:
  "query_running =
     \<lparr>registry = [QUERY_RULE_ID \<mapsto> \<lparr>Name = QUERY_RULE_ID, Topology = 0, Triggered = True\<rparr>],
      topologies = (\<lambda>a. \<lparr>ctx = None, metrics = []\<rparr>)(0 := live_topology), next_tp = Suc 0,
      QR = \<lparr>Results = [], LastFetch = 0\<rparr>,
      trace = [EvExecQuery QUERY_RULE_ID ''select * from demo'' (Some 0)]\<rparr>"
  by (simp add: query_running_def startup_state_def CreateQuery_def
      new_topology_def record_event_def state_of_def)

subsection \<open>Stopping, dropping and restarting a rule\<close>

text \<open>
  C8. \<open>StopRule\<close> on a name that has no rule state in the registry returns no error,
  replies "Rule <name> was not found." and leaves the registry, and the rest of the
  state, as they were.
\<close>

theorem StopRule_not_found:
  assumes "registry s name = None"
  shows "StopRule name reply s = (None, ''Rule '' @ name @ '' was not found.'', s)"
  using assms by (simp add: StopRule_def)

theorem StopRule_not_found_witness:
  "registry startup_state ''nope'' = None \<and>
   StopRule ''nope'' [] startup_state = (None, ''Rule nope was not found.'', startup_state)"
  using StopRule_not_found [of startup_state "''nope''" "[]"]
  by (simp add: startup_state_def)

text \<open>
  What \<open>DropRule\<close> does to a registered rule once \<open>ExecDrop\<close> has succeeded: the
  topology is cancelled and the flag is cleared, as \<open>StopRule\<close> does; the entry stays.
\<close>

lemma DropRule_registered:
  assumes "registry s name = Some rs"
  shows "DropRule (Inr r) name reply s =
     (None, r, s\<lparr>trace := trace s @ [EvExecDrop name, EvCancel (Topology rs)],
                 registry := (registry s)(name \<mapsto> rs\<lparr>Triggered := False\<rparr>)\<rparr>)"
  using assms by (simp add: DropRule_def StopRule_def record_event_def)

text \<open>
  C1. After a successful \<open>DropRule\<close> of a registered rule the registry should hold no
  rule state for it. On the running rule \<open>r1\<close> the call succeeds and the registry
  still holds the rule state of \<open>r1\<close>, with the flag cleared: \<open>GetStatusRule\<close>
  finds it and reports it as stopped, and \<open>StartRule\<close> opens its topology again
  without asking for the rule by name.
\<close>

theorem DropRule_keeps_entry:
  "err_of (DropRule (Inr ''Rule r1 is dropped.'') ''r1'' [] rule_running) = None \<and>
   reply_of (DropRule (Inr ''Rule r1 is dropped.'') ''r1'' [] rule_running) = ''Rule r1 is dropped.'' \<and>
   registry (state_of (DropRule (Inr ''Rule r1 is dropped.'') ''r1'' [] rule_running)) ''r1'' =
     Some \<lparr>Name = ''r1'', Topology = 0, Triggered = False\<rparr> \<and>
   GetStatusRule plain_library ''r1'' []
       (state_of (DropRule (Inr ''Rule r1 is dropped.'') ''r1'' [] rule_running)) =
     (None, ''Stopped: canceled manually.'',
      state_of (DropRule (Inr ''Rule r1 is dropped.'') ''r1'' [] rule_running)) \<and>
   trace (state_of (StartRule (Inl (Err ''unused'')) (Inl (Err ''unused'')) ''r1'' []
       (state_of (DropRule (Inr ''Rule r1 is dropped.'') ''r1'' [] rule_running)))) =
     [EvGetRuleByName ''r1'', EvExecInitRule ''r1'' (Some 0), EvOpen 0,
      EvExecDrop ''r1'', EvCancel 0, EvOpen 0]"
  by (simp add: rule_running_eq DropRule_def StopRule_def StartRule_def doStartRule_def
      GetStatusRule_def record_event_def err_of_def reply_of_def state_of_def)

text \<open>
  C2, as the code has it. \<open>RestartRule\<close> of a registered rule succeeds, sets the flag
  and keeps the topology the rule state had: that topology is cancelled and then opened
  again, and no topology is created.
\<close>

theorem RestartRule_reuses_topology:
  assumes "registry s name = Some rs"
  shows "RestartRule get init name reply s =
     (None, ''Rule '' @ name @ '' was restarted.'',
      s\<lparr>trace := trace s @ [EvCancel (Topology rs), EvOpen (Topology rs)],
        registry := (registry s)(name \<mapsto> rs\<lparr>Triggered := True\<rparr>)\<rparr>)"
  using assms
  by (simp add: RestartRule_def StartRule_def StopRule_def doStartRule_def record_event_def)

theorem RestartRule_reuses_topology_witness:
  "registry rule_running ''r1'' = Some \<lparr>Name = ''r1'', Topology = 0, Triggered = True\<rparr> \<and>
   RestartRule (Inl (Err ''unused'')) (Inl (Err ''unused'')) ''r1'' [] rule_running =
     (None, ''Rule r1 was restarted.'',
      rule_running\<lparr>trace := trace rule_running @ [EvCancel 0, EvOpen 0]\<rparr>)"
  using RestartRule_reuses_topology [of rule_running "''r1''"
      "\<lparr>Name = ''r1'', Topology = 0, Triggered = True\<rparr>" "Inl (Err ''unused'')" "Inl (Err ''unused'')" "[]"]
  by (simp add: rule_running_eq)

text \<open>
  C2, as the claim has it, fails on the running rule \<open>r1\<close>: after a successful
  \<open>RestartRule\<close> the rule state points to the topology it pointed to before.
\<close>

theorem RestartRule_same_topology:
  "registry rule_running ''r1'' = Some \<lparr>Name = ''r1'', Topology = 0, Triggered = True\<rparr> \<and>
   err_of (RestartRule (Inl (Err ''unused'')) (Inl (Err ''unused'')) ''r1'' [] rule_running) = None \<and>
   registry (state_of (RestartRule (Inl (Err ''unused'')) (Inl (Err ''unused'')) ''r1'' [] rule_running)) ''r1'' =
     Some \<lparr>Name = ''r1'', Topology = 0, Triggered = True\<rparr> \<and>
   next_tp (state_of (RestartRule (Inl (Err ''unused'')) (Inl (Err ''unused'')) ''r1'' [] rule_running)) =
     next_tp rule_running"
  by (simp add: rule_running_eq RestartRule_def StartRule_def StopRule_def doStartRule_def
      record_event_def err_of_def state_of_def)

subsection \<open>Fetching the result of the query\<close>

text \<open>
  A fetch that finds no dead query returns the concatenation of the fragments and sets
  the time of the last fetch; a buffer that held fragments holds ten empty ones
  afterwards.
\<close>

lemma GetQueryResult_fetch:
  assumes "query_died s = None"
  shows "GetQueryResult now qid reply s =
     (None, concat (Results (QR s)),
      s\<lparr>QR := \<lparr>Results = (if Results (QR s) = [] then [] else replicate 10 []),
                LastFetch = now\<rparr>\<rparr>)"
  using assms by (simp add: GetQueryResult_def Let_def)

text \<open>
  C3. A fetch that finds fragments should leave the buffer with no fragment. On the
  buffer that holds \<open>a\<close> and \<open>b\<close> the fetch returns \<open>ab\<close> and sets the time of the
  last fetch, and the buffer then holds ten fragments.
\<close>

theorem GetQueryResult_leaves_ten_fragments:
  "GetQueryResult 7 [] [] two_fragments =
     (None, ''ab'', two_fragments\<lparr>QR := \<lparr>Results = replicate 10 [], LastFetch = 7\<rparr>\<rparr>) \<and>
   length (Results (QR (state_of (GetQueryResult 7 [] [] two_fragments)))) = 10"
  by (simp add: GetQueryResult_def query_died_def two_fragments_def startup_state_def state_of_def)

text \<open>
  C9. When the query is registered and the context of its topology reports an error,
  \<open>GetQueryResult\<close> returns that error; the reply and the state (the buffer and the
  time of the last fetch) are as before.
\<close>

theorem GetQueryResult_query_died:
  assumes "registry s QUERY_RULE_ID = Some rs"
    and "ctx (topologies s (Topology rs)) = Some (Some err)"
  shows "GetQueryResult now qid reply s = (Some err, reply, s)"
  using assms by (simp add: GetQueryResult_def query_died_def)

theorem GetQueryResult_query_died_witness:
  "registry (query_running\<lparr>topologies := (\<lambda>a. \<lparr>ctx = Some (Some (Err ''source closed'')), metrics = []\<rparr>),
                            QR := \<lparr>Results = [''a''], LastFetch = 0\<rparr>\<rparr>) QUERY_RULE_ID =
     Some \<lparr>Name = QUERY_RULE_ID, Topology = 0, Triggered = True\<rparr> \<and>
   GetQueryResult 7 [] []
     (query_running\<lparr>topologies := (\<lambda>a. \<lparr>ctx = Some (Some (Err ''source closed'')), metrics = []\<rparr>),
                    QR := \<lparr>Results = [''a''], LastFetch = 0\<rparr>\<rparr>) =
     (Some (Err ''source closed''), [],
      query_running\<lparr>topologies := (\<lambda>a. \<lparr>ctx = Some (Some (Err ''source closed'')), metrics = []\<rparr>),
                    QR := \<lparr>Results = [''a''], LastFetch = 0\<rparr>\<rparr>)"
  using GetQueryResult_query_died
    [of "query_running\<lparr>topologies := (\<lambda>a. \<lparr>ctx = Some (Some (Err ''source closed'')), metrics = []\<rparr>),
                        QR := \<lparr>Results = [''a''], LastFetch = 0\<rparr>\<rparr>"
        "\<lparr>Name = QUERY_RULE_ID, Topology = 0, Triggered = True\<rparr>" "Err ''source closed''" 7 "[]" "[]"]
  by (simp add: query_running_eq)

subsection \<open>The status of a rule\<close>

text \<open>
  C6. For a registered rule whose flag is set and whose context reports the
  deadline-exceeded sentinel, \<open>GetStatusRule\<close> replies exactly
  "Stopped: deadline exceed.", which is no metrics block.
\<close>

theorem GetStatusRule_deadline:
  assumes "registry s name = Some rs" and "Triggered rs"
    and "ctx (topologies s (Topology rs)) = Some (Some DeadlineExceeded)"
  shows "GetStatusRule lib name reply s = (None, ''Stopped: deadline exceed.'', s) \<and>
         \<not> is_metrics_block (reply_of (GetStatusRule lib name reply s))"
  using assms by (simp add: GetStatusRule_def is_metrics_block_def reply_of_def)

theorem GetStatusRule_deadline_witness:
  "registry (rule_running\<lparr>topologies := (\<lambda>a. \<lparr>ctx = Some (Some DeadlineExceeded), metrics = []\<rparr>)\<rparr>) ''r1'' =
     Some \<lparr>Name = ''r1'', Topology = 0, Triggered = True\<rparr> \<and>
   GetStatusRule \<lparr>Sprintf_q = id, json_Indent = Some\<rparr> ''r1'' []
     (rule_running\<lparr>topologies := (\<lambda>a. \<lparr>ctx = Some (Some DeadlineExceeded), metrics = []\<rparr>)\<rparr>) =
     (None, ''Stopped: deadline exceed.'',
      rule_running\<lparr>topologies := (\<lambda>a. \<lparr>ctx = Some (Some DeadlineExceeded), metrics = []\<rparr>)\<rparr>)"
  using GetStatusRule_deadline
    [of "rule_running\<lparr>topologies := (\<lambda>a. \<lparr>ctx = Some (Some DeadlineExceeded), metrics = []\<rparr>)\<rparr>"
        "''r1''" "\<lparr>Name = ''r1'', Topology = 0, Triggered = True\<rparr>"
        "\<lparr>Sprintf_q = id, json_Indent = Some\<rparr>" "[]"]
  by (simp add: rule_running_eq)

subsection \<open>The ad-hoc query and the ticker\<close>

text \<open>
  C10. When \<open>CreateQuery\<close> is called while a query is registered and \<open>ExecQuery\<close>
  fails, the call returns the error of \<open>ExecQuery\<close>; the topology of the previous
  query has been cancelled before \<open>ExecQuery\<close> ran, its entry is gone, and nothing
  puts it back.
\<close>

theorem CreateQuery_failure_drops_previous:
  assumes "registry s QUERY_RULE_ID = Some rs"
  shows "CreateQuery (Inl err) sql reply s =
     (Some err, reply,
      s\<lparr>trace := trace s @ [EvCancel (Topology rs), EvExecQuery QUERY_RULE_ID sql None],
        registry := (registry s)(QUERY_RULE_ID := None)\<rparr>) \<and>
     registry (state_of (CreateQuery (Inl err) sql reply s)) QUERY_RULE_ID = None"
  using assms by (simp add: CreateQuery_def stopQuery_def record_event_def state_of_def)

theorem CreateQuery_failure_drops_previous_witness:
  "registry query_running QUERY_RULE_ID =
     Some \<lparr>Name = QUERY_RULE_ID, Topology = 0, Triggered = True\<rparr> \<and>
   err_of (CreateQuery (Inl (Err ''syntax error'')) ''selec'' [] query_running) =
     Some (Err ''syntax error'') \<and>
   registry (state_of (CreateQuery (Inl (Err ''syntax error'')) ''selec'' [] query_running)) =
     Map.empty \<and>
   trace (state_of (CreateQuery (Inl (Err ''syntax error'')) ''selec'' [] query_running)) =
     [EvExecQuery QUERY_RULE_ID ''select * from demo'' (Some 0), EvCancel 0,
      EvExecQuery QUERY_RULE_ID ''selec'' None]"
  using CreateQuery_failure_drops_previous [of query_running
      "\<lparr>Name = QUERY_RULE_ID, Topology = 0, Triggered = True\<rparr>" "Err ''syntax error''" "''selec''" "[]"]
  by (simp add: query_running_eq err_of_def state_of_def)

text \<open>
  The saturation of \<open>Time.Sub\<close> does not show at a threshold of ten seconds.
\<close>

lemma Sub_ge_ten_seconds: "Sub now t \<ge> 10 * Second \<longleftrightarrow> now - t \<ge> 10 * Second"
  by (simp add: Sub_def Second_def maxDuration_def minDuration_def)

text \<open>
  C7. The ticker fires every five seconds. An iteration that finds the query
  registered and the last fetch at least ten seconds old cancels the topology of the
  query and removes its entry; an iteration that finds no query, or a last fetch less
  than ten seconds old, changes nothing.
\<close>

theorem watchdog_tick_reclaims:
  "(registry s QUERY_RULE_ID = Some rs \<and> now - LastFetch (QR s) \<ge> 10 * Second \<longrightarrow>
      watchdog_tick now s =
        s\<lparr>trace := trace s @ [EvCancel (Topology rs)],
          registry := (registry s)(QUERY_RULE_ID := None)\<rparr>) \<and>
   (registry s QUERY_RULE_ID = None \<or> now - LastFetch (QR s) < 10 * Second \<longrightarrow>
      watchdog_tick now s = s) \<and>
   ticker_interval = 5 * Second"
  by (auto simp add: watchdog_tick_def Sub_ge_ten_seconds stopQuery_def record_event_def
      ticker_interval_def)

theorem watchdog_tick_reclaims_witness:
  "registry query_running QUERY_RULE_ID =
     Some \<lparr>Name = QUERY_RULE_ID, Topology = 0, Triggered = True\<rparr> \<and>
   10000000000 - LastFetch (QR query_running) \<ge> 10 * Second \<and>
   watchdog_tick 10000000000 query_running =
     query_running\<lparr>trace := trace query_running @ [EvCancel 0], registry := Map.empty\<rparr> \<and>
   9999999999 - LastFetch (QR query_running) < 10 * Second \<and>
   watchdog_tick 9999999999 query_running = query_running \<and>
   registry startup_state QUERY_RULE_ID = None \<and>
   watchdog_tick 10000000000 startup_state = startup_state"
  using watchdog_tick_reclaims [of query_running
      "\<lparr>Name = QUERY_RULE_ID, Topology = 0, Triggered = True\<rparr>" 10000000000]
    watchdog_tick_reclaims [of query_running
      "\<lparr>Name = QUERY_RULE_ID, Topology = 0, Triggered = True\<rparr>" 9999999999]
    watchdog_tick_reclaims [of startup_state
      "\<lparr>Name = QUERY_RULE_ID, Topology = 0, Triggered = True\<rparr>" 10000000000]
  by (simp add: query_running_eq startup_state_def Second_def)


subsection \<open>At most one query\<close>

lemma created_queries_append:
  "created_queries (xs @ ys) = created_queries xs @ created_queries ys"
  by (induction xs rule: created_queries.induct) simp_all

lemma created_queries_cancel_previous: "created_queries (cancel_previous s) = []"
  by (simp add: cancel_previous_def split: option.splits)

lemma stopQuery_eq:
  "stopQuery s = s\<lparr>trace := trace s @ cancel_previous s,
                    registry := (registry s)(QUERY_RULE_ID := None)\<rparr>"
  by (cases "registry s QUERY_RULE_ID")
     (simp_all add: stopQuery_def cancel_previous_def record_event_def fun_upd_idem)

lemma CreateQuery_success:
  "CreateQuery (Inr t) sql reply s =
     (None, ''Query was submit successfully.'',
      s\<lparr>topologies := (topologies s)(next_tp s := t), next_tp := Suc (next_tp s),
        trace := trace s @ cancel_previous s @ [EvExecQuery QUERY_RULE_ID sql (Some (next_tp s))],
        registry := (registry s)(QUERY_RULE_ID \<mapsto>
          \<lparr>Name = QUERY_RULE_ID, Topology = next_tp s, Triggered = True\<rparr>)\<rparr>)"
  by (cases "registry s QUERY_RULE_ID")
     (simp_all add: CreateQuery_def stopQuery_def cancel_previous_def new_topology_def
        record_event_def)

lemma CreateQuery_failure:
  "CreateQuery (Inl err) sql reply s =
     (Some err, reply,
      s\<lparr>trace := trace s @ cancel_previous s @ [EvExecQuery QUERY_RULE_ID sql None],
        registry := (registry s)(QUERY_RULE_ID := None)\<rparr>)"
  by (cases "registry s QUERY_RULE_ID")
     (simp_all add: CreateQuery_def stopQuery_def cancel_previous_def record_event_def fun_upd_idem)

lemma CreateQuery_after_stopQuery:
  "CreateQuery exec sql reply s = CreateQuery exec sql reply (stopQuery s)"
  by (cases "registry s QUERY_RULE_ID")
     (simp_all add: CreateQuery_def stopQuery_def)

lemma allocated_not_cancelled:
  assumes "handles_allocated s"
  shows "EvCancel (next_tp s) \<notin> set (trace s)"
proof
  assume "EvCancel (next_tp s) \<in> set (trace s)"
  then have "next_tp s \<in> set (concat (map event_handles (trace s)))"
    by force
  then show False using assms by (auto simp add: handles_allocated_def list_all_iff)
qed

lemma registered_allocated:
  assumes "handles_allocated s" and "registry s name = Some rs"
  shows "Topology rs < next_tp s"
  using assms ranI [of "registry s" name rs] by (simp add: handles_allocated_def)

lemma allocated_not_previous:
  assumes "handles_allocated s"
  shows "EvCancel (next_tp s) \<notin> set (cancel_previous s)"
proof (cases "registry s QUERY_RULE_ID")
  case None
  then show ?thesis by (simp add: cancel_previous_def)
next
  case (Some rs)
  then show ?thesis using registered_allocated [OF assms Some]
    by (simp add: cancel_previous_def)
qed

lemma previous_cancels_active:
  assumes "no_stray_query s" and "a \<in> set (created_queries (trace s))"
    and "EvCancel a \<notin> set (trace s)"
  shows "EvCancel a \<in> set (cancel_previous s)"
proof -
  have "a \<in> set (active_queries s)" using assms by (simp add: active_queries_def)
  then show ?thesis using assms(1)
    by (auto simp add: no_stray_query_def cancel_previous_def split: option.splits)
qed

lemma active_after_success:
  assumes "handles_allocated s" and "no_stray_query s"
  shows "active_queries (state_of (CreateQuery (Inr t) sql reply s)) = [next_tp s]"
proof -
  have "filter (\<lambda>a. EvCancel a \<notin> set (trace s) \<and> EvCancel a \<notin> set (cancel_previous s))
          (created_queries (trace s)) = []"
    using previous_cancels_active [OF assms(2)] by (auto simp add: filter_empty_conv)
  then show ?thesis
    using allocated_not_cancelled [OF assms(1)] allocated_not_previous [OF assms(1)]
    by (simp add: CreateQuery_success state_of_def active_queries_def created_queries_append
        created_queries_cancel_previous)
qed

lemma active_after_failure:
  assumes "no_stray_query s"
  shows "active_queries (state_of (CreateQuery (Inl err) sql reply s)) = []"
proof -
  have "filter (\<lambda>a. EvCancel a \<notin> set (trace s) \<and> EvCancel a \<notin> set (cancel_previous s))
          (created_queries (trace s)) = []"
    using previous_cancels_active [OF assms] by (auto simp add: filter_empty_conv)
  then show ?thesis
    by (simp add: CreateQuery_failure state_of_def active_queries_def created_queries_append
        created_queries_cancel_previous)
qed

lemma handles_cancel_previous:
  assumes "handles_allocated s"
  shows "list_all (\<lambda>a. a < next_tp s) (concat (map event_handles (cancel_previous s)))"
proof (cases "registry s QUERY_RULE_ID")
  case None
  then show ?thesis by (simp add: cancel_previous_def)
next
  case (Some rs)
  then show ?thesis using registered_allocated [OF assms Some]
    by (simp add: cancel_previous_def)
qed

lemma list_all_less_Suc:
  "list_all (\<lambda>a. a < n) xs \<Longrightarrow> list_all (\<lambda>a. a < Suc n) xs"
  by (induction xs) auto

lemma allocated_after_CreateQuery:
  assumes "handles_allocated s"
  shows "handles_allocated (state_of (CreateQuery exec sql reply s))"
proof (cases exec)
  case (Inl err)
  have "\<forall>rs \<in> ran ((registry s)(QUERY_RULE_ID := None)). Topology rs < next_tp s"
    using assms by (auto simp add: handles_allocated_def ran_def split: if_splits)
  then show ?thesis using Inl assms handles_cancel_previous [OF assms]
    by (simp add: CreateQuery_failure state_of_def handles_allocated_def)
next
  case (Inr t)
  have "\<forall>rs \<in> ran ((registry s)(QUERY_RULE_ID \<mapsto>
           \<lparr>Name = QUERY_RULE_ID, Topology = next_tp s, Triggered = True\<rparr>)).
          Topology rs < Suc (next_tp s)"
    using assms by (auto simp add: handles_allocated_def ran_def less_Suc_eq split: if_splits)
  then show ?thesis using Inr assms handles_cancel_previous [OF assms]
    by (simp add: CreateQuery_success state_of_def handles_allocated_def list_all_less_Suc)
qed

lemma no_stray_after_CreateQuery:
  assumes "handles_allocated s" and "no_stray_query s"
  shows "no_stray_query (state_of (CreateQuery exec sql reply s))"
proof (cases exec)
  case (Inl err)
  then show ?thesis using active_after_failure [OF assms(2), of err sql reply]
    by (simp add: no_stray_query_def)
next
  case (Inr t)
  then show ?thesis using active_after_success [OF assms, of t sql reply]
    by (simp add: no_stray_query_def CreateQuery_success state_of_def)
qed


lemma allocated_after_stopQuery:
  assumes "handles_allocated s"
  shows "handles_allocated (stopQuery s)"
proof -
  have "\<forall>rs \<in> ran ((registry s)(QUERY_RULE_ID := None)). Topology rs < next_tp s"
    using assms by (auto simp add: handles_allocated_def ran_def split: if_splits)
  then show ?thesis using assms handles_cancel_previous [OF assms]
    by (simp add: stopQuery_eq handles_allocated_def)
qed

lemma no_stray_after_stopQuery:
  assumes "no_stray_query s"
  shows "active_queries (stopQuery s) = [] \<and> no_stray_query (stopQuery s)"
proof -
  have "filter (\<lambda>a. EvCancel a \<notin> set (trace s) \<and> EvCancel a \<notin> set (cancel_previous s))
          (created_queries (trace s)) = []"
    using previous_cancels_active [OF assms] by (auto simp add: filter_empty_conv)
  then show ?thesis
    by (simp add: stopQuery_eq active_queries_def no_stray_query_def created_queries_append
        created_queries_cancel_previous)
qed

lemma startup_state_no_stray:
  "handles_allocated startup_state \<and> no_stray_query startup_state"
  by (simp add: handles_allocated_def no_stray_query_def active_queries_def startup_state_def)

text \<open>
  C4. \<open>CreateQuery\<close> on a state with a registered query is \<open>CreateQuery\<close> on the
  state \<open>stopQuery\<close> leaves, in which the topology of the previous query has been
  cancelled and its entry removed: both happen before \<open>ExecQuery\<close> runs and before
  the new entry is stored. After two successful calls in a row the entry of the
  reserved name holds the topology of the second query, the other entries are as
  before, and the first query has been cancelled before the second \<open>ExecQuery\<close>.
  In a well-formed state with no stray query (the state at start-up is one), whatever
  \<open>ExecQuery\<close> returns, at most one query is active after the call and the state is
  again well-formed with no stray query, so this holds after every further call; and
  after two successful calls in a row exactly one query is active: the second.
\<close>

theorem CreateQuery_at_most_one:
  "CreateQuery exec sql reply (stopQuery s) = CreateQuery exec sql reply s \<and>
   stopQuery s = s\<lparr>trace := trace s @ cancel_previous s,
                   registry := (registry s)(QUERY_RULE_ID := None)\<rparr> \<and>
   registry (state_of (CreateQuery (Inr t2) sql2 reply2 (state_of (CreateQuery (Inr t1) sql1 reply1 s)))) =
     (registry s)(QUERY_RULE_ID \<mapsto>
        \<lparr>Name = QUERY_RULE_ID, Topology = Suc (next_tp s), Triggered = True\<rparr>) \<and>
   trace (state_of (CreateQuery (Inr t2) sql2 reply2 (state_of (CreateQuery (Inr t1) sql1 reply1 s)))) =
     trace s @ cancel_previous s @
     [EvExecQuery QUERY_RULE_ID sql1 (Some (next_tp s)), EvCancel (next_tp s),
      EvExecQuery QUERY_RULE_ID sql2 (Some (Suc (next_tp s)))] \<and>
   (handles_allocated s \<and> no_stray_query s \<longrightarrow>
      handles_allocated (state_of (CreateQuery exec sql reply s)) \<and>
      no_stray_query (state_of (CreateQuery exec sql reply s)) \<and>
      length (active_queries (state_of (CreateQuery exec sql reply s))) \<le> 1 \<and>
      active_queries (state_of (CreateQuery (Inr t2) sql2 reply2 (state_of (CreateQuery (Inr t1) sql1 reply1 s)))) =
        [Suc (next_tp s)])"
proof -
  let ?s1 = "state_of (CreateQuery (Inr t1) sql1 reply1 s)"
  have reg: "registry (state_of (CreateQuery (Inr t2) sql2 reply2 ?s1)) =
       (registry s)(QUERY_RULE_ID \<mapsto>
          \<lparr>Name = QUERY_RULE_ID, Topology = Suc (next_tp s), Triggered = True\<rparr>)"
    by (simp add: CreateQuery_success state_of_def)
  have tr: "trace (state_of (CreateQuery (Inr t2) sql2 reply2 ?s1)) =
       trace s @ cancel_previous s @
       [EvExecQuery QUERY_RULE_ID sql1 (Some (next_tp s)), EvCancel (next_tp s),
        EvExecQuery QUERY_RULE_ID sql2 (Some (Suc (next_tp s)))]"
    by (simp add: CreateQuery_success state_of_def cancel_previous_def)
  have inv: "handles_allocated (state_of (CreateQuery exec sql reply s)) \<and>
      no_stray_query (state_of (CreateQuery exec sql reply s)) \<and>
      length (active_queries (state_of (CreateQuery exec sql reply s))) \<le> 1 \<and>
      active_queries (state_of (CreateQuery (Inr t2) sql2 reply2 ?s1)) = [Suc (next_tp s)]"
    if a: "handles_allocated s" and n: "no_stray_query s"
  proof -
    have a1: "handles_allocated ?s1" using a by (rule allocated_after_CreateQuery)
    have n1: "no_stray_query ?s1" using a n by (rule no_stray_after_CreateQuery)
    have next1: "next_tp ?s1 = Suc (next_tp s)"
      by (simp add: CreateQuery_success state_of_def)
    have len: "length (active_queries (state_of (CreateQuery exec sql reply s))) \<le> 1"
    proof (cases exec)
      case (Inl err)
      then show ?thesis using active_after_failure [OF n, of err sql reply] by simp
    next
      case (Inr t)
      then show ?thesis using active_after_success [OF a n, of t sql reply] by simp
    qed
    have act: "active_queries (state_of (CreateQuery (Inr t2) sql2 reply2 ?s1)) = [Suc (next_tp s)]"
      using active_after_success [OF a1 n1, of t2 sql2 reply2] next1 by simp
    show ?thesis
      using allocated_after_CreateQuery [OF a, of exec sql reply]
        no_stray_after_CreateQuery [OF a n, of exec sql reply] len act
      by simp
  qed
  show ?thesis
    using CreateQuery_after_stopQuery [of exec sql reply s, symmetric] stopQuery_eq [of s]
      reg tr inv
    by blast
qed

theorem CreateQuery_at_most_one_witness:
  "handles_allocated query_running \<and> no_stray_query query_running \<and>
   active_queries query_running = [0] \<and>
   registry (state_of (CreateQuery (Inr live_topology) ''select b from demo'' []
      (state_of (CreateQuery (Inr live_topology) ''select a from demo'' [] query_running)))) =
     [QUERY_RULE_ID \<mapsto> \<lparr>Name = QUERY_RULE_ID, Topology = 2, Triggered = True\<rparr>] \<and>
   active_queries (state_of (CreateQuery (Inr live_topology) ''select b from demo'' []
      (state_of (CreateQuery (Inr live_topology) ''select a from demo'' [] query_running)))) = [2] \<and>
   trace (state_of (CreateQuery (Inr live_topology) ''select b from demo'' []
      (state_of (CreateQuery (Inr live_topology) ''select a from demo'' [] query_running)))) =
     [EvExecQuery QUERY_RULE_ID ''select * from demo'' (Some 0), EvCancel 0,
      EvExecQuery QUERY_RULE_ID ''select a from demo'' (Some 1), EvCancel 1,
      EvExecQuery QUERY_RULE_ID ''select b from demo'' (Some 2)]"
proof -
  have a: "handles_allocated query_running"
    by (simp add: handles_allocated_def query_running_eq)
  have n: "no_stray_query query_running"
    by (simp add: no_stray_query_def active_queries_def query_running_eq)
  have c: "cancel_previous query_running = [EvCancel 0]"
    by (simp add: cancel_previous_def query_running_eq)
  have "active_queries query_running = [0]"
    by (simp add: active_queries_def query_running_eq)
  then show ?thesis
    using a n c CreateQuery_at_most_one [of "Inr live_topology" "''select a from demo''" "[]"
        query_running live_topology "''select b from demo''" "[]" live_topology
        "''select a from demo''" "[]"]
    by (simp add: query_running_eq numeral_2_eq_2)
qed

subsection \<open>The status of a stopped rule\<close>

lemma stopped_StopRule:
  "registry s n \<noteq> None \<Longrightarrow> stopped n (state_of (StopRule n reply s))"
  by (auto simp add: stopped_def StopRule_def state_of_def record_event_def)

lemma stopped_status:
  "stopped n s \<Longrightarrow> GetStatusRule lib n reply s = (None, ''Stopped: canceled manually.'', s)"
  by (auto simp add: stopped_def GetStatusRule_def split: option.splits)

lemma registry_doStartRule:
  "registry (snd (doStartRule key s)) n =
     (if n = key then map_option (\<lambda>rs. rs\<lparr>Triggered := True\<rparr>) (registry s key) else registry s n)"
  by (simp add: doStartRule_def record_event_def split: option.splits)

lemma err_doStartRule: "fst (doStartRule key s) = None"
  by (simp add: doStartRule_def split: option.splits)

lemma registry_createRuleState:
  "n \<noteq> Id r \<Longrightarrow> registry (snd (createRuleState init r s)) n = registry s n"
  by (simp add: createRuleState_def record_event_def new_topology_def split: sum.splits)

lemma key_createRuleState:
  "fst (createRuleState init r s) = Inr key \<Longrightarrow> key = Id r"
  by (simp add: createRuleState_def record_event_def new_topology_def split: sum.splits)

lemma registry_StopRule:
  "registry (state_of (StopRule name reply s)) n =
     (if n = name then map_option (\<lambda>rs. rs\<lparr>Triggered := False\<rparr>) (registry s name) else registry s n)"
  by (simp add: StopRule_def record_event_def state_of_def split: option.splits)

lemma registry_StartRule:
  assumes "name \<noteq> n" and "\<not> stored_as n get"
  shows "registry (state_of (StartRule get init name reply s)) n = registry s n"
proof (cases "registry s name")
  case (Some rs)
  then show ?thesis using assms
    by (simp add: StartRule_def state_of_def doStartRule_def record_event_def)
next
  case None
  show ?thesis
  proof (cases get)
    case (Inl err)
    then show ?thesis using None
      by (simp add: StartRule_def state_of_def record_event_def)
  next
    case (Inr r)
    then have ne: "n \<noteq> Id r" using assms by auto
    obtain res s1 where c: "createRuleState init r (record_event (EvGetRuleByName name) s) = (res, s1)"
      by (cases "createRuleState init r (record_event (EvGetRuleByName name) s)")
    have r1: "registry s1 n = registry s n"
      using registry_createRuleState [OF ne, of init "record_event (EvGetRuleByName name) s"] c
      by (simp add: record_event_def)
    show ?thesis
    proof (cases res)
      case (Inl err)
      then show ?thesis using None Inr c r1 by (simp add: StartRule_def state_of_def)
    next
      case (Inr key)
      then have k: "key = Id r" using key_createRuleState [of init r "record_event (EvGetRuleByName name) s" key] c by simp
      obtain e s2 where d: "doStartRule key s1 = (e, s2)" by (cases "doStartRule key s1")
      have "registry s2 n = registry s1 n"
        using registry_doStartRule [of key s1 n] d k ne by simp
      then show ?thesis using None \<open>get = Inr r\<close> Inr c r1 d
        by (simp add: StartRule_def state_of_def split: option.splits)
    qed
  qed
qed

lemma step_keeps_stopped:
  assumes "stopped n s" and "\<not> starts n x" and "\<not> reclaims n x"
  shows "stopped n (step lib x s)"
proof (cases x)
  case (CallCreateQuery exec sql)
  then show ?thesis using assms
    by (auto simp add: stopped_def CreateQuery_def stopQuery_def new_topology_def
        record_event_def state_of_def Let_def split: option.splits sum.splits)
next
  case (CallGetQueryResult now qid)
  then show ?thesis using assms
    by (auto simp add: stopped_def GetQueryResult_def state_of_def Let_def split: option.splits)
next
  case (CallStream executed stream)
  then show ?thesis using assms
    by (auto simp add: stopped_def Stream_def record_event_def state_of_def Let_def split: sum.splits)
next
  case (CallCreateRule created init rule)
  show ?thesis
  proof (cases created)
    case (Inl err)
    then show ?thesis using assms CallCreateRule
      by (simp add: stopped_def CreateRule_def record_event_def state_of_def)
  next
    case (Inr r)
    then have ne: "n \<noteq> Id r" using assms CallCreateRule by auto
    let ?s0 = "record_event (EvExecCreate (rule_Name rule) (rule_Json rule)) s"
    obtain res s1 where c: "createRuleState init r ?s0 = (res, s1)"
      by (cases "createRuleState init r ?s0")
    have r1: "registry s1 n = registry s n"
      using registry_createRuleState [OF ne, of init ?s0] c by (simp add: record_event_def)
    show ?thesis
    proof (cases res)
      case (Inl err)
      then show ?thesis using assms(1) CallCreateRule \<open>created = Inr r\<close> c r1
        by (simp add: stopped_def CreateRule_def state_of_def Let_def)
    next
      case (Inr key)
      then have k: "key = Id r" using key_createRuleState [of init r ?s0 key] c by simp
      obtain e s2 where d: "doStartRule key s1 = (e, s2)" by (cases "doStartRule key s1")
      have "registry s2 n = registry s1 n"
        using registry_doStartRule [of key s1 n] d k ne by simp
      then show ?thesis using assms(1) CallCreateRule \<open>created = Inr r\<close> Inr c r1 d
        by (simp add: stopped_def CreateRule_def state_of_def Let_def split: option.splits)
    qed
  qed
next
  case (CallGetStatusRule name)
  then show ?thesis using assms
    by (auto simp add: stopped_def GetStatusRule_def state_of_def
        split: option.splits go_error.splits)
next
  case (CallStartRule get init name)
  then show ?thesis using assms registry_StartRule [of name n get init "[]" s]
    by (simp add: stopped_def)
next
  case (CallStopRule name)
  then show ?thesis using assms registry_StopRule [of name "[]" s n]
    by (auto simp add: stopped_def split: option.splits)
next
  case (CallRestartRule get init name)
  obtain reply1 s1 where st: "StopRule name [] s = (None, reply1, s1)"
    by (cases "registry s name") (simp_all add: StopRule_def)
  have "registry (step lib x s) n = registry (state_of (StartRule get init name reply1 s1)) n"
    using CallRestartRule st
    by (simp add: RestartRule_def state_of_def split: prod.splits option.splits)
  also have "\<dots> = registry s1 n"
    using registry_StartRule [of name n get] assms CallRestartRule by simp
  also have "\<dots> = registry s n"
    using registry_StopRule [of name "[]" s n] assms CallRestartRule st by (auto simp add: state_of_def)
  finally show ?thesis using assms(1) by (simp add: stopped_def)
next
  case (CallDescRule described name)
  then show ?thesis using assms
    by (auto simp add: stopped_def DescRule_def record_event_def state_of_def Let_def split: sum.splits)
next
  case (CallShowRules shown)
  then show ?thesis using assms
    by (auto simp add: stopped_def ShowRules_def record_event_def state_of_def Let_def split: sum.splits)
next
  case (CallDropRule dropped name)
  then show ?thesis using assms
    by (auto simp add: stopped_def DropRule_def StopRule_def record_event_def state_of_def Let_def
        split: sum.splits option.splits)
next
  case (Tick now)
  then show ?thesis using assms
    by (auto simp add: stopped_def watchdog_tick_def stopQuery_def record_event_def
        split: option.splits)
next
  case (Background f cancelled)
  then show ?thesis using assms by (simp add: stopped_def)
next
  case (Collect fragment)
  then show ?thesis using assms by (simp add: stopped_def)
qed

lemma run_keeps_stopped:
  "stopped n s \<Longrightarrow> \<forall>x \<in> set xs. \<not> starts n x \<and> \<not> reclaims n x \<Longrightarrow> stopped n (run lib xs s)"
  by (induction xs arbitrary: s) (auto simp add: step_keeps_stopped)

text \<open>
  C5, as the code has it. After \<open>StopRule\<close> of a registered rule, and after any run
  in which no call starts the rule and, for the reserved name of the query, no iteration
  of the ticker loop takes place, \<open>GetStatusRule\<close> replies
  "Stopped: canceled manually.", which is no metrics block, whatever the contexts of
  the topologies report and whatever the engine has done to them in between.
\<close>

theorem stopped_status_until_start:
  assumes "registry s name = Some rs"
    and "\<forall>x \<in> set xs. \<not> starts name x \<and> \<not> reclaims name x"
  shows "GetStatusRule lib name reply (run lib xs (state_of (StopRule name reply0 s))) =
           (None, ''Stopped: canceled manually.'',
            run lib xs (state_of (StopRule name reply0 s))) \<and>
         \<not> is_metrics_block ''Stopped: canceled manually.''"
proof -
  have "stopped name (state_of (StopRule name reply0 s))"
    using assms(1) by (simp add: stopped_StopRule)
  then have "stopped name (run lib xs (state_of (StopRule name reply0 s)))"
    using assms(2) by (rule run_keeps_stopped)
  then show ?thesis
    by (simp add: stopped_status is_metrics_block_def)
qed

theorem stopped_status_until_start_witness:
  "registry rule_running ''r1'' = Some \<lparr>Name = ''r1'', Topology = 0, Triggered = True\<rparr> \<and>
   list_all (\<lambda>x. \<not> starts ''r1'' x \<and> \<not> reclaims ''r1'' x)
     [Background (\<lambda>m a. \<lparr>ctx = Some (Some Canceled), metrics = []\<rparr>) [0],
      CallGetStatusRule ''r1'', Tick 10000000000,
      CallStartRule (Inr \<lparr>Id = ''r2''\<rparr>) (Inr live_topology) ''r2''] \<and>
   err_of (GetStatusRule plain_library ''r1'' []
     (run plain_library
        [Background (\<lambda>m a. \<lparr>ctx = Some (Some Canceled), metrics = []\<rparr>) [0],
         CallGetStatusRule ''r1'', Tick 10000000000,
         CallStartRule (Inr \<lparr>Id = ''r2''\<rparr>) (Inr live_topology) ''r2'']
        (state_of (StopRule ''r1'' [] rule_running)))) = None \<and>
   reply_of (GetStatusRule plain_library ''r1'' []
     (run plain_library
        [Background (\<lambda>m a. \<lparr>ctx = Some (Some Canceled), metrics = []\<rparr>) [0],
         CallGetStatusRule ''r1'', Tick 10000000000,
         CallStartRule (Inr \<lparr>Id = ''r2''\<rparr>) (Inr live_topology) ''r2'']
        (state_of (StopRule ''r1'' [] rule_running)))) = ''Stopped: canceled manually.''"
proof -
  let ?xs = "[Background (\<lambda>m a. \<lparr>ctx = Some (Some Canceled), metrics = []\<rparr>) [0],
      CallGetStatusRule ''r1'', Tick 10000000000,
      CallStartRule (Inr \<lparr>Id = ''r2''\<rparr>) (Inr live_topology) ''r2'']"
  have registered:
    "registry rule_running ''r1'' = Some \<lparr>Name = ''r1'', Topology = 0, Triggered = True\<rparr>"
    by (simp add: rule_running_eq)
  have quiet: "\<forall>x \<in> set ?xs. \<not> starts ''r1'' x \<and> \<not> reclaims ''r1'' x"
    by (simp add: QUERY_RULE_ID_def)
  have status:
    "GetStatusRule plain_library ''r1'' []
       (run plain_library ?xs (state_of (StopRule ''r1'' [] rule_running))) =
     (None, ''Stopped: canceled manually.'',
      run plain_library ?xs (state_of (StopRule ''r1'' [] rule_running)))"
    using stopped_status_until_start [OF registered quiet, of plain_library "[]" "[]"]
    by (rule conjunct1)
  have "list_all (\<lambda>x. \<not> starts ''r1'' x \<and> \<not> reclaims ''r1'' x) ?xs"
    by (simp add: QUERY_RULE_ID_def)
  then show ?thesis
    using registered by (simp only: status err_of_def reply_of_def fst_conv snd_conv simp_thms)
qed

text \<open>
  C5, as the claim has it, fails for the reserved name of the query: the query is
  registered, \<open>StopRule\<close> clears its flag, an iteration of the ticker loop (which starts
  nothing) finds the last fetch ten seconds old and removes the entry, and
  \<open>GetStatusRule\<close> then fails with "is not found".
\<close>

theorem stopped_query_entry_reclaimed:
  "registry query_running QUERY_RULE_ID =
     Some \<lparr>Name = QUERY_RULE_ID, Topology = 0, Triggered = True\<rparr> \<and>
   list_all (\<lambda>x. \<not> starts QUERY_RULE_ID x) [Tick 10000000000] \<and>
   GetStatusRule plain_library QUERY_RULE_ID []
     (state_of (StopRule QUERY_RULE_ID [] query_running)) =
     (None, ''Stopped: canceled manually.'', state_of (StopRule QUERY_RULE_ID [] query_running)) \<and>
   err_of (GetStatusRule plain_library QUERY_RULE_ID []
     (run plain_library [Tick 10000000000]
        (state_of (StopRule QUERY_RULE_ID [] query_running)))) =
     Some (Err ''Rule internal-xstream_query_rule is not found'')"
  by (simp add: query_running_eq StopRule_def GetStatusRule_def watchdog_tick_def stopQuery_def
      Sub_def Second_def maxDuration_def minDuration_def record_event_def
      err_of_def state_of_def QUERY_RULE_ID_def)

end
